theory Spec2Isabelle
  imports Main
begin

section \<open>Bytes and text\<close>

text \<open>
  The child's streams carry Python \<open>bytes\<close>; \<open>bytes.decode()\<close> turns them into a
  Python \<open>str\<close>, a sequence of Unicode code points. Bytes are modelled as \<open>char\<close>
  (eight bits), code points as natural numbers.
\<close>

type_synonym bytes = "char list"
type_synonym str = "nat list"

text \<open>A \<open>str\<close> literal of the source, written with ASCII characters.\<close>

definition text_of :: "string \<Rightarrow> str" where
  "text_of s = map of_char s"

text \<open>
  \<open>bytes.decode()\<close>: strict UTF-8. \<open>None\<close> stands for \<open>UnicodeDecodeError\<close>
  (a stray continuation byte, an overlong form, a surrogate, a value above U+10FFFF
  or a truncated sequence).
\<close>

definition is_cont :: "nat \<Rightarrow> bool" where
  "is_cont b = (128 \<le> b \<and> b \<le> 191)"

fun utf8 :: "nat list \<Rightarrow> str option" where
  "utf8 [] = Some []"
| "utf8 (b0 # bs) =
     (if b0 < 128 then map_option (Cons b0) (utf8 bs)
      else if 194 \<le> b0 \<and> b0 \<le> 223 then
        (case bs of
           b1 # r \<Rightarrow>
             if is_cont b1
             then map_option (Cons ((b0 - 192) * 64 + (b1 - 128))) (utf8 r)
             else None
         | _ \<Rightarrow> None)
      else if 224 \<le> b0 \<and> b0 \<le> 239 then
        (case bs of
           b1 # b2 # r \<Rightarrow>
             if (if b0 = 224 then 160 \<le> b1 \<and> b1 \<le> 191
                 else if b0 = 237 then 128 \<le> b1 \<and> b1 \<le> 159
                 else is_cont b1) \<and> is_cont b2
             then map_option
                    (Cons ((b0 - 224) * 4096 + (b1 - 128) * 64 + (b2 - 128))) (utf8 r)
             else None
         | _ \<Rightarrow> None)
      else if 240 \<le> b0 \<and> b0 \<le> 244 then
        (case bs of
           b1 # b2 # b3 # r \<Rightarrow>
             if (if b0 = 240 then 144 \<le> b1 \<and> b1 \<le> 191
                 else if b0 = 244 then 128 \<le> b1 \<and> b1 \<le> 143
                 else is_cont b1) \<and> is_cont b2 \<and> is_cont b3
             then map_option
                    (Cons ((b0 - 240) * 262144 + (b1 - 128) * 4096
                           + (b2 - 128) * 64 + (b3 - 128))) (utf8 r)
             else None
         | _ \<Rightarrow> None)
      else None)"

definition decode :: "bytes \<Rightarrow> str option" where
  "decode bs = utf8 (map of_char bs)"

text \<open>
  \<open>str.rstrip()\<close> removes the trailing characters for which \<open>str.isspace\<close> holds:
  the code points of Unicode category Zs or of bidirectional class WS, B or S.
\<close>

definition isspace :: "nat \<Rightarrow> bool" where
  "isspace c = ((9 \<le> c \<and> c \<le> 13) \<or> (28 \<le> c \<and> c \<le> 32) \<or> c = 133 \<or> c = 160
                \<or> c = 5760 \<or> (8192 \<le> c \<and> c \<le> 8202) \<or> c = 8232 \<or> c = 8233
                \<or> c = 8239 \<or> c = 8287 \<or> c = 12288)"

definition rstrip :: "str \<Rightarrow> str" where
  "rstrip s = rev (dropWhile isspace (rev s))"

text \<open>
  \<open>bytes.rstrip()\<close> removes trailing ASCII whitespace only: space, tab, newline,
  carriage return, vertical tab and form feed.
\<close>

definition isspace_byte :: "char \<Rightarrow> bool" where
  "isspace_byte b = ((9::nat) \<le> of_char b \<and> of_char b \<le> (13::nat) \<or> of_char b = (32::nat))"

definition rstrip_bytes :: "bytes \<Rightarrow> bytes" where
  "rstrip_bytes s = rev (dropWhile isspace_byte (rev s))"

text \<open>\<open>str.startswith(prefix)\<close>.\<close>

definition startswith :: "str \<Rightarrow> str \<Rightarrow> bool" where
  "startswith s p = (take (length p) s = p)"

text \<open>
  \<open>str.partition(sep)\<close>: the part before the first occurrence of \<open>sep\<close>, \<open>sep\<close>
  itself and the part after it; the whole string and two empty strings when \<open>sep\<close>
  does not occur. (The source calls it with the non-empty separator \<open>": "\<close> only.)
\<close>

fun find_sep :: "str \<Rightarrow> str \<Rightarrow> (str \<times> str) option" where
  "find_sep sep [] = (if sep = [] then Some ([], []) else None)"
| "find_sep sep (c # cs) =
     (if startswith (c # cs) sep then Some ([], drop (length sep) (c # cs))
      else map_option (\<lambda>(a, b). (c # a, b)) (find_sep sep cs))"

definition str_partition :: "str \<Rightarrow> str \<Rightarrow> str \<times> str \<times> str" where
  "str_partition s sep =
     (case find_sep sep s of
        None \<Rightarrow> (s, [], [])
      | Some (a, b) \<Rightarrow> (a, sep, b))"

section \<open>The streams\<close>

text \<open>
  A stream is the sequence of bytes the child still has to deliver before it closes
  the pipe. \<open>start\<close> spawns the child without a \<open>limit\<close> argument (lines 106--112),
  so its streams have the default limit of asyncio, \<open>2 ** 16\<close> bytes.
\<close>

definition limit :: nat where
  "limit = 65536"

datatype error =
    AustinError str
  | AustinTerminated "str option"
  | UnicodeDecodeError
  | ValueError
  | HostError string
  | SpawnError string

text \<open>
  \<open>StreamReader.readline()\<close> returns the bytes up to and including the first
  newline, or everything that is left (possibly nothing) at end of stream. When
  more than \<open>limit\<close> bytes come before the newline (or before the end of the
  stream) it raises \<open>ValueError\<close> and discards what it holds in its buffer: more
  than \<open>limit\<close> bytes and at most the whole line with its newline, depending on how
  much of the line had arrived. \<open>overrun inp\<close> says how many bytes beyond
  \<open>limit + 1\<close> are discarded in that case.
\<close>

definition readline :: "(bytes \<Rightarrow> nat) \<Rightarrow> bytes \<Rightarrow> (error + bytes) \<times> bytes" where
  "readline overrun inp =
     (let line = takeWhile (\<lambda>b. b \<noteq> CHR ''\<newline>'') inp in
      if limit < length line then
        (Inl ValueError,
         drop (min (limit + 1 + overrun inp)
                 (case dropWhile (\<lambda>b. b \<noteq> CHR ''\<newline>'') inp of
                    [] \<Rightarrow> length line
                  | nl # rest \<Rightarrow> Suc (length line)))
           inp)
      else
        (case dropWhile (\<lambda>b. b \<noteq> CHR ''\<newline>'') inp of
           [] \<Rightarrow> (Inr inp, [])
         | nl # rest \<Rightarrow> (Inr (line @ [nl]), rest)))"

section \<open>Metadata\<close>

text \<open>
  A Python \<open>dict\<close> keeps its keys in insertion order; assigning to a key that is
  present replaces the value in place.
\<close>

type_synonym dict = "(str \<times> str) list"

fun dict_set :: "dict \<Rightarrow> str \<Rightarrow> str \<Rightarrow> dict" where
  "dict_set [] k v = [(k, v)]"
| "dict_set ((k', v') # m) k v =
     (if k' = k then (k, v) # m else (k', v') # dict_set m k v)"

text \<open>\<open>d.update(other)\<close> assigns the items of \<open>other\<close> in their order.\<close>

definition dict_update :: "dict \<Rightarrow> dict \<Rightarrow> dict" where
  "dict_update d other = fold (\<lambda>(k, v) m. dict_set m k v) other d"

text \<open>
  \<open>_read_meta\<close> (lines 32--42): read lines while they are metadata, collecting
  them in a fresh mapping. The result is paired with what is left of the stream; a
  line that does not decode raises after it has been taken from the stream.
\<close>

function read_meta_loop ::
  "(bytes \<Rightarrow> nat) \<Rightarrow> dict \<Rightarrow> bytes \<Rightarrow> (error + dict) \<times> bytes" where
  "read_meta_loop overrun acc inp =
     (case readline overrun inp of
        (Inl err, rest) \<Rightarrow> (Inl err, rest)
      | (Inr raw, rest) \<Rightarrow>
          (case decode raw of
             None \<Rightarrow> (Inl UnicodeDecodeError, rest)
           | Some decoded \<Rightarrow>
               (let line = rstrip decoded in
                if \<not> (line \<noteq> [] \<and> startswith line (text_of ''# '')) then (Inr acc, rest)
                else (case str_partition (drop 2 line) (text_of '': '') of
                        (key, _, val) \<Rightarrow>
                          read_meta_loop overrun (dict_set acc key val) rest))))"
  by pat_completeness auto
termination
proof (relation "measure (\<lambda>(overrun, acc, inp). length inp)")
  show "wf (measure (\<lambda>(overrun :: bytes \<Rightarrow> nat, acc :: dict, inp :: bytes). length inp))"
    by simp
next
  fix overrun :: "bytes \<Rightarrow> nat" and acc :: dict and inp raw rest :: bytes
    and res :: "error + bytes" and decoded line key val :: str
  assume r: "(res, rest) = readline overrun inp" and x: "res = Inr raw"
    and d: "decode raw = Some decoded" and l: "line = rstrip decoded"
    and m: "\<not> \<not> (line \<noteq> [] \<and> startswith line (text_of ''# ''))"
  from d l m have "raw \<noteq> []"
    by (auto simp: decode_def rstrip_def)
  moreover from r x have "inp = raw @ rest"
    by (auto simp: readline_def Let_def split: list.splits if_splits)
       (metis takeWhile_dropWhile_id)
  ultimately show "((overrun, dict_set acc key val, rest), (overrun, acc, inp))
      \<in> measure (\<lambda>(overrun, acc, inp). length inp)"
    by simp
qed

declare read_meta_loop.simps [simp del]

definition read_meta :: "(bytes \<Rightarrow> nat) \<Rightarrow> bytes \<Rightarrow> (error + dict) \<times> bytes" where
  "read_meta overrun inp = read_meta_loop overrun [] inp"

section \<open>The sample loop\<close>

text \<open>
  Lines 135--140. \<open>stop k\<close> tells whether the host has cleared \<open>_running\<close> by the
  time the loop tests it for the \<open>k\<close>-th time (counting from 0); \<open>sink\<close> is
  \<open>submit_sample\<close>, which returns \<open>Some x\<close> when it raises; \<open>x\<close> names the
  exception, which reaches the caller as \<open>HostError x\<close>. The result is the list of
  samples handed to the sink, the rest of the stream, and the exception that ended
  the loop, if any.
\<close>

function sample_loop ::
  "(bytes \<Rightarrow> nat) \<Rightarrow> (nat \<Rightarrow> bool) \<Rightarrow> (bytes \<Rightarrow> string option) \<Rightarrow> nat \<Rightarrow> bytes
     \<Rightarrow> bytes list \<times> bytes \<times> error option" where
  "sample_loop overrun stop sink k inp =
     (if stop k then ([], inp, None)
      else (case readline overrun inp of
              (Inl err, rest) \<Rightarrow> ([], rest, Some err)
            | (Inr raw, rest) \<Rightarrow>
                (let data = rstrip_bytes raw in
                 if data = [] then ([], rest, None)
                 else (case sink data of
                         Some x \<Rightarrow> ([data], rest, Some (HostError x))
                       | None \<Rightarrow>
                           (case sample_loop overrun stop sink (Suc k) rest of
                              (ds, rest', r) \<Rightarrow> (data # ds, rest', r))))))"
  by pat_completeness auto
termination
proof (relation "measure (\<lambda>(overrun, stop, sink, k, inp). length inp)")
  show "wf (measure (\<lambda>(overrun :: bytes \<Rightarrow> nat, stop :: nat \<Rightarrow> bool,
                        sink :: bytes \<Rightarrow> string option, k :: nat, inp :: bytes). length inp))"
    by simp
next
  fix overrun :: "bytes \<Rightarrow> nat" and stop :: "nat \<Rightarrow> bool"
    and sink :: "bytes \<Rightarrow> string option" and k :: nat and inp raw rest data :: bytes
    and res :: "error + bytes"
  assume r: "(res, rest) = readline overrun inp" and x: "res = Inr raw"
    and d: "data = rstrip_bytes raw" and n: "data \<noteq> []"
  from d n have "raw \<noteq> []"
    by (auto simp: rstrip_bytes_def)
  moreover from r x have "inp = raw @ rest"
    by (auto simp: readline_def Let_def split: list.splits if_splits)
       (metis takeWhile_dropWhile_id)
  ultimately show "((overrun, stop, sink, Suc k, rest), (overrun, stop, sink, k, inp))
      \<in> measure (\<lambda>(overrun, stop, sink, k, inp). length inp)"
    by simp
qed

declare sample_loop.simps [simp del]

section \<open>The exit status\<close>

text \<open>\<open>str(n)\<close> for an integer: decimal digits, with a minus sign when negative.\<close>

function digits :: "nat \<Rightarrow> str" where
  "digits n = (if n < 10 then [48 + n] else digits (n div 10) @ [48 + n mod 10])"
  by pat_completeness auto
termination
  by (relation "measure (\<lambda>n. n)") auto

declare digits.simps [simp del]

definition str_int :: "int \<Rightarrow> str" where
  "str_int i = (if i < 0 then 45 # digits (nat (- i)) else digits (nat i))"

text \<open>
  The f-string of line 153, \<open>f"({rcode}) {stderr}"\<close>; \<open>stderr\<close> is \<open>None\<close> when
  the read of the diagnostic stream timed out, and is then formatted as \<open>None\<close>.
\<close>

definition failed_message :: "int \<Rightarrow> str option \<Rightarrow> str" where
  "failed_message rcode diag =
     text_of ''('' @ str_int rcode @ text_of '') ''
       @ (case diag of None \<Rightarrow> text_of ''None'' | Some s \<Rightarrow> s)"

text \<open>Lines 150--153: the exception raised for an exit status, if any.\<close>

definition exit_error :: "int \<Rightarrow> str option \<Rightarrow> error option" where
  "exit_error rcode diag =
     (if rcode \<noteq> 0 then
        (if rcode = - 15 \<or> rcode = 15 then Some (AustinTerminated diag)
         else Some (AustinError (failed_message rcode diag)))
      else None)"

section \<open>The run\<close>

text \<open>
  What \<open>create_subprocess_exec\<close> does (lines 106--112): it returns the child, or
  raises \<open>FileNotFoundError\<close>, or raises something else (\<open>PermissionError\<close>, say),
  which lines 113--114 do not catch and which reaches the caller as it is.
\<close>

datatype spawn_outcome = Spawned | File_not_found | Spawn_failed string

text \<open>
  Everything \<open>start\<close> depends on and does not compute itself: the outcome of the
  spawn and whether the pipes are there, what the child writes on its primary
  stream and how much the reader discards when a line overruns the limit, what
  the bounded read of the diagnostic stream returns (\<open>None\<close> when it times out),
  the exit status, the stop requests of the host, the content of \<open>_meta\<close> before
  the run, and the three callbacks, each of which may raise (\<open>Some x\<close>, reaching
  the caller as \<open>HostError x\<close>). The ready callback stands for lines 128--132 as a
  whole.
\<close>

record env =
  spawn :: spawn_outcome
  has_stdout :: bool
  has_stderr :: bool
  stdout :: bytes
  overrun :: "bytes \<Rightarrow> nat"
  stderr :: "bytes option"
  returncode :: int
  stop_requested :: "nat \<Rightarrow> bool"
  meta_before :: dict
  ready_callback :: "string option"
  sample_callback :: "bytes \<Rightarrow> string option"
  terminate_callback :: "dict \<Rightarrow> string option"

text \<open>What a run does that the host or the child can observe, in order.\<close>

datatype event =
    Set_running bool
  | Header_read dict
  | Ready
  | Sample bytes
  | Footer_read dict
  | Terminate dict
  | Stderr_read "str option"
  | Waited int

text \<open>
  The state a piece of \<open>start\<close> leaves behind: the events so far, the unread part
  of the primary stream, \<open>_meta\<close>, and the exception it raised, if any.
\<close>

record run =
  events :: "event list"
  unread :: bytes
  meta :: dict
  raised :: "error option"

text \<open>
  \<open>_read_stderr\<close> (lines 80--86). \<open>StreamReader.read()\<close> reads to the end of the
  stream and knows no limit.
\<close>

definition read_stderr :: "env \<Rightarrow> error + str option" where
  "read_stderr e =
     (case stderr e of
        None \<Rightarrow> Inr None
      | Some bs \<Rightarrow>
          (case decode bs of
             None \<Rightarrow> Inl UnicodeDecodeError
           | Some decoded \<Rightarrow> Inr (Some (rstrip decoded))))"

text \<open>
  \<open>_read_header\<close> and \<open>_read_footer\<close> (lines 88--96): parse a block, merge it into
  \<open>_meta\<close> and return the block's own mapping. The result carries the rest of the
  stream and \<open>_meta\<close> as the call leaves it.
\<close>

definition read_header ::
  "(bytes \<Rightarrow> nat) \<Rightarrow> bytes \<Rightarrow> dict \<Rightarrow> (error + dict) \<times> bytes \<times> dict" where
  "read_header ov inp m =
     (case read_meta ov inp of
        (Inl err, rest) \<Rightarrow> (Inl err, rest, m)
      | (Inr parsed, rest) \<Rightarrow> (Inr parsed, rest, dict_update m parsed))"

definition read_footer ::
  "(bytes \<Rightarrow> nat) \<Rightarrow> bytes \<Rightarrow> dict \<Rightarrow> (error + dict) \<times> bytes \<times> dict" where
  "read_footer ov inp m =
     (case read_meta ov inp of
        (Inl err, rest) \<Rightarrow> (Inl err, rest, m)
      | (Inr parsed, rest) \<Rightarrow> (Inr parsed, rest, dict_update m parsed))"

text \<open>The body of the \<open>try\<close> statement (lines 124--140).\<close>

definition try_body :: "env \<Rightarrow> run" where
  "try_body e =
     (case read_header (overrun e) (stdout e) (meta_before e) of
        (Inl err, rest, m) \<Rightarrow>
          \<lparr>events = [], unread = rest, meta = m, raised = Some err\<rparr>
      | (Inr header, rest, m) \<Rightarrow>
          (if header = [] then
             \<lparr>events = [Header_read header], unread = rest, meta = m,
              raised = Some (AustinError (text_of ''Austin did not start properly''))\<rparr>
           else
             (case ready_callback e of
                Some x \<Rightarrow>
                  \<lparr>events = [Header_read header, Ready], unread = rest, meta = m,
                   raised = Some (HostError x)\<rparr>
              | None \<Rightarrow>
                  (case sample_loop (overrun e) (stop_requested e) (sample_callback e) 0 rest of
                     (ds, rest', r) \<Rightarrow>
                       \<lparr>events = [Header_read header, Ready] @ map Sample ds,
                        unread = rest', meta = m, raised = r\<rparr>))))"

text \<open>
  The \<open>finally\<close> clause (lines 144--153), entered with the stream and \<open>_meta\<close> as
  the body left them. \<open>raised\<close> is the exception the clause itself raises.
\<close>

definition cleanup :: "env \<Rightarrow> bytes \<Rightarrow> dict \<Rightarrow> run" where
  "cleanup e inp m =
     (case read_footer (overrun e) inp m of
        (Inl err, rest, m') \<Rightarrow>
          \<lparr>events = [Set_running False], unread = rest, meta = m', raised = Some err\<rparr>
      | (Inr footer, rest, m') \<Rightarrow>
          (let evs = [Set_running False, Footer_read footer, Terminate footer] in
           case terminate_callback e footer of
             Some x \<Rightarrow>
               \<lparr>events = evs, unread = rest, meta = m', raised = Some (HostError x)\<rparr>
           | None \<Rightarrow>
               (case read_stderr e of
                  Inl err \<Rightarrow> \<lparr>events = evs, unread = rest, meta = m', raised = Some err\<rparr>
                | Inr diag \<Rightarrow>
                    \<lparr>events = evs @ [Stderr_read diag, Waited (returncode e)],
                     unread = rest, meta = m',
                     raised = exit_error (returncode e) diag\<rparr>)))"

text \<open>
  \<open>AsyncAustin.start\<close> (lines 98--153). An exception raised by the \<open>finally\<close>
  clause replaces the one the body raised; otherwise the body's exception goes on
  to the caller once the clause is through.
\<close>

definition start :: "env \<Rightarrow> run" where
  "start e =
     (case spawn e of
        File_not_found \<Rightarrow>
          \<lparr>events = [], unread = stdout e, meta = meta_before e,
           raised = Some (AustinError (text_of ''Austin executable not found.''))\<rparr>
      | Spawn_failed x \<Rightarrow>
          \<lparr>events = [], unread = stdout e, meta = meta_before e,
           raised = Some (SpawnError x)\<rparr>
      | Spawned \<Rightarrow>
          (if \<not> has_stdout e then
             \<lparr>events = [], unread = stdout e, meta = meta_before e,
              raised = Some (AustinError
                         (text_of ''Standard output stream is unexpectedly missing''))\<rparr>
           else if \<not> has_stderr e then
             \<lparr>events = [], unread = stdout e, meta = meta_before e,
              raised = Some (AustinError
                         (text_of ''Standard error stream is unexpectedly missing''))\<rparr>
           else
             (let b = try_body e;
                  c = cleanup e (unread b) (meta b) in
              \<lparr>events = Set_running True # events b @ events c,
               unread = unread c, meta = meta c,
               raised = (case raised c of Some err \<Rightarrow> Some err | None \<Rightarrow> raised b)\<rparr>)))"

text \<open>The child has been spawned with both of its output pipes.\<close>

definition launched :: "env \<Rightarrow> bool" where
  "launched e = (spawn e = Spawned \<and> has_stdout e \<and> has_stderr e)"

section \<open>Reading the events of a run\<close>

text \<open>The mappings the termination callback has been called with, in order.\<close>

fun terminate_calls :: "event list \<Rightarrow> dict list" where
  "terminate_calls [] = []"
| "terminate_calls (Terminate m # evs) = m # terminate_calls evs"
| "terminate_calls (_ # evs) = terminate_calls evs"

text \<open>The samples handed to the sink, in order.\<close>

fun samples :: "event list \<Rightarrow> bytes list" where
  "samples [] = []"
| "samples (Sample d # evs) = d # samples evs"
| "samples (_ # evs) = samples evs"

section \<open>Shapes of input\<close>

text \<open>
  A complete line that \<open>readline\<close> returns: at most \<open>limit\<close> bytes without a
  newline, followed by one.
\<close>

definition is_line :: "bytes \<Rightarrow> bool" where
  "is_line l =
     (l \<noteq> [] \<and> last l = CHR ''\<newline>'' \<and> CHR ''\<newline>'' \<notin> set (butlast l)
      \<and> length (butlast l) \<le> limit)"



section \<open>The metadata test in the words of the specification\<close>



section \<open>Scenarios\<close>

text \<open>Concrete runs, used to evaluate the model.\<close>

text \<open>A header and a footer that share the key \<open>mode\<close>.\<close>

definition scenario_merge :: env where
  "scenario_merge =
     \<lparr>spawn = Spawned, has_stdout = True, has_stderr = True,
      stdout = ''# mode: wall\<newline># interval: 100\<newline>\<newline>sample\<newline>\<newline># mode: cpu\<newline># duration: 7\<newline>'',
      overrun = (\<lambda>_. 0), stderr = Some [], returncode = 0, stop_requested = (\<lambda>_. False),
      meta_before = [], ready_callback = None, sample_callback = (\<lambda>_. None),
      terminate_callback = (\<lambda>_. None)\<rparr>"

text \<open>The read of the diagnostic stream times out; the child was stopped by signal 15.\<close>

definition scenario_timeout :: env where
  "scenario_timeout =
     \<lparr>spawn = Spawned, has_stdout = True, has_stderr = True,
      stdout = ''# mode: wall\<newline>\<newline>sample\<newline>'',
      overrun = (\<lambda>_. 0), stderr = None, returncode = 15, stop_requested = (\<lambda>_. False),
      meta_before = [], ready_callback = None, sample_callback = (\<lambda>_. None),
      terminate_callback = (\<lambda>_. None)\<rparr>"

text \<open>The child was stopped by signal 15 and has said so on its diagnostic stream.\<close>

definition scenario_signal :: env where
  "scenario_signal =
     \<lparr>spawn = Spawned, has_stdout = True, has_stderr = True,
      stdout = ''# mode: wall\<newline>\<newline>sample\<newline>'',
      overrun = (\<lambda>_. 0), stderr = Some ''killed\<newline>'', returncode = - 15, stop_requested = (\<lambda>_. False),
      meta_before = [], ready_callback = None, sample_callback = (\<lambda>_. None),
      terminate_callback = (\<lambda>_. None)\<rparr>"

text \<open>The scenario of section 8 of the specification.\<close>

definition scenario_8 :: env where
  "scenario_8 =
     \<lparr>spawn = Spawned, has_stdout = True, has_stderr = True,
      stdout = ''# key: value\<newline># foo: bar\<newline>\<newline>sample-A\<newline>sample-B\<newline>'',
      overrun = (\<lambda>_. 0), stderr = Some [], returncode = 0, stop_requested = (\<lambda>_. False),
      meta_before = [], ready_callback = None, sample_callback = (\<lambda>_. None),
      terminate_callback = (\<lambda>_. None)\<rparr>"

text \<open>The child writes nothing and exits with status 1.\<close>

definition scenario_no_output :: env where
  "scenario_no_output =
     \<lparr>spawn = Spawned, has_stdout = True, has_stderr = True,
      stdout = [], overrun = (\<lambda>_. 0), stderr = Some [], returncode = 1, stop_requested = (\<lambda>_. False),
      meta_before = [], ready_callback = None, sample_callback = (\<lambda>_. None),
      terminate_callback = (\<lambda>_. None)\<rparr>"

text \<open>The child prints something that is not a header and exits with status 0.\<close>

definition scenario_usage :: env where
  "scenario_usage =
     \<lparr>spawn = Spawned, has_stdout = True, has_stderr = True,
      stdout = ''Usage: austin\<newline>'', overrun = (\<lambda>_. 0), stderr = Some [], returncode = 0,
      stop_requested = (\<lambda>_. False),
      meta_before = [], ready_callback = None, sample_callback = (\<lambda>_. None),
      terminate_callback = (\<lambda>_. None)\<rparr>"

text \<open>The child prints no header, complains and exits with status 2.\<close>

definition scenario_garbage :: env where
  "scenario_garbage =
     \<lparr>spawn = Spawned, has_stdout = True, has_stderr = True,
      stdout = ''garbage\<newline>'', overrun = (\<lambda>_. 0), stderr = Some ''boom\<newline>'', returncode = 2,
      stop_requested = (\<lambda>_. False),
      meta_before = [], ready_callback = None, sample_callback = (\<lambda>_. None),
      terminate_callback = (\<lambda>_. None)\<rparr>"

text \<open>The sample callback of the host raises.\<close>

definition scenario_sink_raises :: env where
  "scenario_sink_raises =
     \<lparr>spawn = Spawned, has_stdout = True, has_stderr = True,
      stdout = ''# mode: wall\<newline>\<newline>sample\<newline>'', overrun = (\<lambda>_. 0), stderr = Some [], returncode = 0,
      stop_requested = (\<lambda>_. False),
      meta_before = [], ready_callback = None, sample_callback = (\<lambda>_. Some ''ValueError''),
      terminate_callback = (\<lambda>_. None)\<rparr>"

text \<open>A footer line that is not UTF-8.\<close>

definition scenario_bad_footer :: env where
  "scenario_bad_footer =
     \<lparr>spawn = Spawned, has_stdout = True, has_stderr = True,
      stdout = ''# mode: wall\<newline>\<newline>sample\<newline>\<newline>'' @ [CHR 0xFF] @ ''\<newline>'',
      overrun = (\<lambda>_. 0), stderr = Some [], returncode = 0, stop_requested = (\<lambda>_. False),
      meta_before = [], ready_callback = None, sample_callback = (\<lambda>_. None),
      terminate_callback = (\<lambda>_. None)\<rparr>"


section \<open>The model on examples\<close>

text \<open>The equations that evaluate a run, and those that format a message.\<close>

lemmas run_eval =
  start_def try_body_def cleanup_def read_header_def read_footer_def read_stderr_def
  read_meta_def read_meta_loop.simps sample_loop.simps readline_def limit_def decode_def
  rstrip_def rstrip_bytes_def isspace_def isspace_byte_def startswith_def text_of_def
  str_partition_def is_cont_def dict_update_def exit_error_def Let_def

lemmas msg_eval = failed_message_def str_int_def digits.simps

text \<open>What Python computes on the same inputs.\<close>

lemma decode_examples:
  "decode ''# a: b\<newline>'' = Some (text_of ''# a: b\<newline>'')"
  "decode [CHR 0xC3, CHR 0xA9] = Some [233]"
  "decode [CHR 0xE2, CHR 0x82, CHR 0xAC] = Some [8364]"
  "decode [CHR 0xF0, CHR 0x9F, CHR 0x98, CHR 0x80] = Some [128512]"
  "decode [CHR 0xFF] = None"
  "decode [CHR 0xC0, CHR 0x80] = None"
  "decode [CHR 0xED, CHR 0xA0, CHR 0x80] = None"
  "decode [CHR 0xE2, CHR 0x82] = None"
  by (simp_all add: decode_def is_cont_def text_of_def)

lemma rstrip_examples:
  "rstrip (text_of ''# a: b \<newline>'') = text_of ''# a: b''"
  "rstrip (text_of ''a  b'') = text_of ''a  b''"
  "rstrip [35, 32, 160, 8195, 10] = [35]"
  "rstrip_bytes ''a b \<newline>'' = ''a b''"
  "rstrip_bytes (''a'' @ [CHR 0x1C]) = ''a'' @ [CHR 0x1C]"
  "rstrip [97, 28] = [97]"
  by (simp_all add: rstrip_def rstrip_bytes_def isspace_def isspace_byte_def text_of_def)

lemma str_partition_examples:
  "str_partition (text_of ''key: value'') (text_of '': '') = (text_of ''key'', text_of '': '', text_of ''value'')"
  "str_partition (text_of ''a: b: c'') (text_of '': '') = (text_of ''a'', text_of '': '', text_of ''b: c'')"
  "str_partition (text_of ''key:value'') (text_of '': '') = (text_of ''key:value'', [], [])"
  by (simp_all add: str_partition_def startswith_def text_of_def)

lemma readline_examples:
  "readline ov ''one\<newline>two\<newline>'' = (Inr ''one\<newline>'', ''two\<newline>'')"
  "readline ov ''tail'' = (Inr ''tail'', [])"
  "readline ov [] = (Inr [], [])"
  by (simp_all add: readline_def limit_def)

lemma failed_message_examples:
  "failed_message 1 (Some (text_of ''boom'')) = text_of ''(1) boom''"
  "failed_message (- 9) None = text_of ''(-9) None''"
  "failed_message 120 (Some []) = text_of ''(120) ''"
  by (simp_all add: msg_eval text_of_def)

lemma scenario_8_run:
  "events (start scenario_8) =
     [Set_running True,
      Header_read [(text_of ''key'', text_of ''value''), (text_of ''foo'', text_of ''bar'')],
      Ready, Sample ''sample-A'', Sample ''sample-B'', Set_running False,
      Footer_read [], Terminate [], Stderr_read (Some []), Waited 0]"
  "raised (start scenario_8) = None"
  "unread (start scenario_8) = []"
  by (simp_all add: scenario_8_def run_eval)

section \<open>Reading lines\<close>


lemma readline_error: "readline ov inp = (Inl err, rest) \<Longrightarrow> err = ValueError"
  by (auto simp: readline_def Let_def split: list.splits if_splits)

lemma readline_line: "is_line l \<Longrightarrow> readline ov (l @ rest) = (Inr l, rest)"
proof -
  assume "is_line l"
  then obtain b where l: "l = b @ [CHR ''\<newline>'']" and b: "CHR ''\<newline>'' \<notin> set b"
    and n: "length b \<le> limit"
    unfolding is_line_def by (metis append_butlast_last_id butlast_snoc)
  from b have "dropWhile (\<lambda>c. c \<noteq> CHR ''\<newline>'') (b @ CHR ''\<newline>'' # rest) = CHR ''\<newline>'' # rest"
    and "takeWhile (\<lambda>c. c \<noteq> CHR ''\<newline>'') (b @ CHR ''\<newline>'' # rest) = b"
    by (auto simp: dropWhile_append3 takeWhile_tail)
  with l n show ?thesis
    by (simp add: readline_def)
qed



section \<open>Mappings\<close>

lemma lookup_dict_set:
  "map_of (dict_set m k v) x = (if x = k then Some v else map_of m x)"
  by (induction m k v rule: dict_set.induct) auto

lemma keys_dict_set: "fst ` set (dict_set m k v) = insert k (fst ` set m)"
  by (induction m k v rule: dict_set.induct) (auto simp: image_iff)

lemma distinct_dict_set:
  "distinct (map fst m) \<Longrightarrow> distinct (map fst (dict_set m k v))"
proof (induction m k v rule: dict_set.induct)
  case (1 k v)
  then show ?case by simp
next
  case (2 k' v' m k v)
  then show ?case
    using keys_dict_set [of m k v] by (auto simp: image_iff)
qed

lemma dict_update_Cons:
  "dict_update d ((k, v) # other) = dict_update (dict_set d k v) other"
  by (simp add: dict_update_def)

lemma lookup_dict_update:
  "distinct (map fst other) \<Longrightarrow>
   map_of (dict_update d other) x =
     (case map_of other x of Some v \<Rightarrow> Some v | None \<Rightarrow> map_of d x)"
proof (induction other arbitrary: d)
  case Nil
  then show ?case by (simp add: dict_update_def)
next
  case (Cons p other)
  obtain k v where p: "p = (k, v)" by (cases p)
  from Cons.prems p have k: "k \<notin> fst ` set other" and d: "distinct (map fst other)"
    by auto
  from k have "map_of other k = None"
    by (simp add: map_of_eq_None_iff)
  with Cons.IH [OF d, of "dict_set d k v"] p show ?case
    by (auto simp: dict_update_Cons lookup_dict_set split: option.splits)
qed

section \<open>The metadata reader\<close>

lemma read_meta_loop_distinct:
  "read_meta_loop ov acc inp = (Inr m, rest) \<Longrightarrow> distinct (map fst acc) \<Longrightarrow> distinct (map fst m)"
proof (induction ov acc inp rule: read_meta_loop.induct)
  case (1 ov acc inp)
  show ?case
    using "1.prems" "1.IH"
    by (subst (asm) read_meta_loop.simps)
       (auto simp: Let_def distinct_dict_set split: prod.splits sum.splits option.splits if_splits)
qed

lemma read_meta_distinct: "read_meta ov inp = (Inr m, rest) \<Longrightarrow> distinct (map fst m)"
  unfolding read_meta_def by (erule read_meta_loop_distinct) simp

lemma read_meta_loop_error:
  "read_meta_loop ov acc inp = (Inl err, rest) \<Longrightarrow> err = UnicodeDecodeError \<or> err = ValueError"
proof (induction ov acc inp rule: read_meta_loop.induct)
  case (1 ov acc inp)
  show ?case
    using "1.prems" "1.IH"
    by (subst (asm) read_meta_loop.simps)
       (auto simp: Let_def dest: readline_error
          split: prod.splits sum.splits option.splits if_splits)
qed



lemma read_meta_loop_stop:
  "readline ov inp = (Inr raw, rest) \<Longrightarrow> decode raw = Some decoded
   \<Longrightarrow> \<not> startswith (rstrip decoded) (text_of ''# '')
   \<Longrightarrow> read_meta_loop ov acc inp = (Inr acc, rest)"
  by (subst read_meta_loop.simps) (simp add: Let_def)















section \<open>The shape of a run\<close>

lemma try_body_cases:
  obtains
    (header_raised) err rest where
      "read_meta (overrun e) (stdout e) = (Inl err, rest)"
      "try_body e = \<lparr>events = [], unread = rest, meta = meta_before e, raised = Some err\<rparr>"
  | (no_header) rest where
      "read_meta (overrun e) (stdout e) = (Inr [], rest)"
      "try_body e = \<lparr>events = [Header_read []], unread = rest, meta = meta_before e,
                     raised = Some (AustinError (text_of ''Austin did not start properly''))\<rparr>"
  | (ready_raised) h rest x where
      "read_meta (overrun e) (stdout e) = (Inr h, rest)" "h \<noteq> []" "ready_callback e = Some x"
      "try_body e = \<lparr>events = [Header_read h, Ready], unread = rest,
                     meta = dict_update (meta_before e) h, raised = Some (HostError x)\<rparr>"
  | (looped) h rest ds rest' r where
      "read_meta (overrun e) (stdout e) = (Inr h, rest)" "h \<noteq> []" "ready_callback e = None"
      "sample_loop (overrun e) (stop_requested e) (sample_callback e) 0 rest = (ds, rest', r)"
      "try_body e = \<lparr>events = [Header_read h, Ready] @ map Sample ds, unread = rest',
                     meta = dict_update (meta_before e) h, raised = r\<rparr>"
proof (cases "read_meta (overrun e) (stdout e)")
  case (Pair res rest)
  show thesis
  proof (cases res)
    case (Inl err)
    with Pair show thesis
      by (intro header_raised [of err rest]) (simp_all add: try_body_def read_header_def)
  next
    case (Inr h)
    show thesis
    proof (cases "h = []")
      case True
      with Pair Inr show thesis
        by (intro no_header [of rest])
           (simp_all add: try_body_def read_header_def dict_update_def)
    next
      case False
      show thesis
      proof (cases "ready_callback e")
        case (Some x)
        with Pair Inr False show thesis
          by (intro ready_raised [of h rest x]) (simp_all add: try_body_def read_header_def)
      next
        case None
        obtain ds rest' r where
          "sample_loop (overrun e) (stop_requested e) (sample_callback e) 0 rest = (ds, rest', r)"
          by (cases "sample_loop (overrun e) (stop_requested e) (sample_callback e) 0 rest")
        with Pair Inr False None show thesis
          by (intro looped [of h rest ds rest' r]) (simp_all add: try_body_def read_header_def)
      qed
    qed
  qed
qed

lemma cleanup_cases:
  obtains
    (footer_raised) err rest where
      "read_meta (overrun e) inp = (Inl err, rest)"
      "cleanup e inp m = \<lparr>events = [Set_running False], unread = rest, meta = m,
                          raised = Some err\<rparr>"
  | (terminate_raised) f rest x where
      "read_meta (overrun e) inp = (Inr f, rest)" "terminate_callback e f = Some x"
      "cleanup e inp m = \<lparr>events = [Set_running False, Footer_read f, Terminate f],
                          unread = rest, meta = dict_update m f, raised = Some (HostError x)\<rparr>"
  | (stderr_raised) f rest err where
      "read_meta (overrun e) inp = (Inr f, rest)" "terminate_callback e f = None"
      "read_stderr e = Inl err"
      "cleanup e inp m = \<lparr>events = [Set_running False, Footer_read f, Terminate f],
                          unread = rest, meta = dict_update m f, raised = Some err\<rparr>"
  | (waited) f rest diag where
      "read_meta (overrun e) inp = (Inr f, rest)" "terminate_callback e f = None"
      "read_stderr e = Inr diag"
      "cleanup e inp m =
         \<lparr>events = [Set_running False, Footer_read f, Terminate f, Stderr_read diag,
                    Waited (returncode e)],
          unread = rest, meta = dict_update m f, raised = exit_error (returncode e) diag\<rparr>"
proof (cases "read_meta (overrun e) inp")
  case (Pair res rest)
  show thesis
  proof (cases res)
    case (Inl err)
    with Pair show thesis
      by (intro footer_raised [of err rest]) (simp_all add: cleanup_def read_footer_def)
  next
    case (Inr f)
    show thesis
    proof (cases "terminate_callback e f")
      case (Some x)
      with Pair Inr show thesis
        by (intro terminate_raised [of f rest x]) (simp_all add: cleanup_def read_footer_def)
    next
      case None
      show thesis
      proof (cases "read_stderr e")
        case (Inl err)
        with Pair Inr None show thesis
          by (intro stderr_raised [of f rest err]) (simp_all add: cleanup_def read_footer_def)
      next
        case (Inr diag)
        with Pair \<open>res = Inr f\<close> None show thesis
          by (intro waited [of f rest diag]) (simp_all add: cleanup_def read_footer_def)
      qed
    qed
  qed
qed

lemma start_launched:
  "launched e \<Longrightarrow>
   start e =
     \<lparr>events = Set_running True # events (try_body e)
                 @ events (cleanup e (unread (try_body e)) (meta (try_body e))),
      unread = unread (cleanup e (unread (try_body e)) (meta (try_body e))),
      meta = meta (cleanup e (unread (try_body e)) (meta (try_body e))),
      raised = (case raised (cleanup e (unread (try_body e)) (meta (try_body e))) of
                  Some err \<Rightarrow> Some err
                | None \<Rightarrow> raised (try_body e))\<rparr>"
  by (simp add: start_def launched_def Let_def)

lemma start_not_launched:
  "\<not> launched e \<Longrightarrow> events (start e) = [] \<and> meta (start e) = meta_before e
     \<and> unread (start e) = stdout e"
  by (auto simp: start_def launched_def split: spawn_outcome.splits)

lemma terminate_calls_append:
  "terminate_calls (xs @ ys) = terminate_calls xs @ terminate_calls ys"
  by (induction xs rule: terminate_calls.induct) auto

lemma terminate_calls_samples: "terminate_calls (map Sample ds) = []"
  by (induction ds) auto



lemma last_occurrence:
  assumes "ys @ [w] = pre @ v # post" and "v \<notin> set ys"
  shows "pre = ys \<and> post = [] \<and> v = w"
proof (cases post rule: rev_cases)
  case Nil
  with assms show ?thesis by simp
next
  case (snoc post' p)
  with assms have "ys = pre @ v # post'" by simp
  with assms(2) show ?thesis by simp
qed

lemma try_body_events:
  "ev \<in> set (events (try_body e))
   \<Longrightarrow> (\<exists>h. ev = Header_read h) \<or> ev = Ready \<or> (\<exists>d. ev = Sample d)"
  by (cases e rule: try_body_cases) auto



lemma samples_append: "samples (xs @ ys) = samples xs @ samples ys"
  by (induction xs rule: samples.induct) auto

lemma samples_map_Sample: "samples (map Sample ds) = ds"
  by (induction ds) auto

lemma rstrip_bytes_suffix:
  "\<exists>ws. l = rstrip_bytes l @ ws \<and> (\<forall>b\<in>set ws. isspace_byte b)"
proof -
  have "rev l = takeWhile isspace_byte (rev l) @ dropWhile isspace_byte (rev l)"
    by simp
  then have "l = rev (dropWhile isspace_byte (rev l)) @ rev (takeWhile isspace_byte (rev l))"
    by (metis rev_append rev_rev_ident)
  moreover have "\<forall>b\<in>set (rev (takeWhile isspace_byte (rev l))). isspace_byte b"
    by (auto dest: set_takeWhileD)
  ultimately show ?thesis
    unfolding rstrip_bytes_def by blast
qed

lemma rstrip_bytes_last:
  "rstrip_bytes l \<noteq> [] \<Longrightarrow> \<not> isspace_byte (last (rstrip_bytes l))"
  unfolding rstrip_bytes_def by (simp add: last_rev hd_dropWhile)

lemma readline_raises:
  "(\<exists>rest. readline ov inp = (Inl ValueError, rest))
     \<longleftrightarrow> limit < length (takeWhile (\<lambda>b. b \<noteq> CHR ''\<newline>'') inp)"
  by (auto simp: readline_def Let_def split: list.splits)



lemma sample_loop_lines:
  "\<forall>l\<in>set ls. is_line l \<and> rstrip_bytes l \<noteq> [] \<and> sink (rstrip_bytes l) = None
   \<Longrightarrow> \<forall>i<length ls. \<not> stop (k + i)
   \<Longrightarrow> sample_loop ov stop sink k (concat ls @ inp) =
         (case sample_loop ov stop sink (k + length ls) inp of
            (ds, rest, r) \<Rightarrow> (map rstrip_bytes ls @ ds, rest, r))"
proof (induction ls arbitrary: k)
  case Nil
  then show ?case by (simp split: prod.splits)
next
  case (Cons l ls)
  from Cons.prems have l: "is_line l" "rstrip_bytes l \<noteq> []" "sink (rstrip_bytes l) = None"
    and k: "\<not> stop k"
    by auto
  from Cons.prems have "\<forall>l\<in>set ls. is_line l \<and> rstrip_bytes l \<noteq> [] \<and> sink (rstrip_bytes l) = None"
    and "\<forall>i<length ls. \<not> stop (Suc k + i)"
    by auto
  from Cons.IH [OF this]
  have ih: "sample_loop ov stop sink (Suc k) (concat ls @ inp) =
         (case sample_loop ov stop sink (Suc k + length ls) inp of
            (ds, rest, r) \<Rightarrow> (map rstrip_bytes ls @ ds, rest, r))" .
  have "readline ov (concat (l # ls) @ inp) = (Inr l, concat ls @ inp)"
    using readline_line [OF l(1), of ov "concat ls @ inp"] by simp
  with l k ih show ?case
    by (subst sample_loop.simps) (simp add: Let_def split: prod.splits)
qed

section \<open>The claims\<close>

subsection \<open>The termination callback\<close>

text \<open>
  C1 says that the termination callback receives the accumulated metadata. Line 146
  passes it what \<open>_read_footer\<close> returns, the mapping of the footer block alone: in
  the scenario of section 8 the callback receives the empty mapping, while \<open>_meta\<close>
  holds the two entries of the header.
\<close>

theorem terminate_scenario_8_counterexample:
  "terminate_calls (events (start scenario_8)) = [[]]
   \<and> meta (start scenario_8)
       = [(text_of ''key'', text_of ''value''), (text_of ''foo'', text_of ''bar'')]"
  by (simp add: scenario_8_def run_eval)

text \<open>
  C1, as amended. In every run that reaches cleanup the footer is parsed from what
  the body left unread. When that parse returns, the termination callback is called
  exactly once, right after it, with the footer's own mapping, which is merged into
  \<open>_meta\<close> but is not \<open>_meta\<close>. When the parse raises, the callback is not called and
  the exception reaches the caller.
\<close>

theorem terminate_receives_footer:
  assumes l: "launched e"
  shows "case fst (read_meta (overrun e) (unread (try_body e))) of
           Inr footer \<Rightarrow>
             terminate_calls (events (start e)) = [footer]
             \<and> (\<exists>pre post. events (start e) = pre @ Footer_read footer # Terminate footer # post)
             \<and> meta (start e) = dict_update (meta (try_body e)) footer
         | Inl err \<Rightarrow>
             terminate_calls (events (start e)) = [] \<and> raised (start e) = Some err"
proof (cases e "unread (try_body e)" "meta (try_body e)" rule: cleanup_cases)
  case (footer_raised err rest)
  with l show ?thesis
    by (cases e rule: try_body_cases)
       (simp_all add: start_launched terminate_calls_append terminate_calls_samples)
next
  case (terminate_raised f rest x)
  have "events (start e) = (Set_running True # events (try_body e) @ [Set_running False])
      @ Footer_read f # Terminate f # []"
    using l terminate_raised by (simp add: start_launched)
  then have "\<exists>pre post. events (start e) = pre @ Footer_read f # Terminate f # post"
    by blast
  with l terminate_raised show ?thesis
    by (cases e rule: try_body_cases)
       (simp_all add: start_launched terminate_calls_append terminate_calls_samples)
next
  case (stderr_raised f rest err)
  have "events (start e) = (Set_running True # events (try_body e) @ [Set_running False])
      @ Footer_read f # Terminate f # []"
    using l stderr_raised by (simp add: start_launched)
  then have "\<exists>pre post. events (start e) = pre @ Footer_read f # Terminate f # post"
    by blast
  with l stderr_raised show ?thesis
    by (cases e rule: try_body_cases)
       (simp_all add: start_launched terminate_calls_append terminate_calls_samples)
next
  case (waited f rest diag)
  have "events (start e) = (Set_running True # events (try_body e) @ [Set_running False])
      @ Footer_read f # Terminate f # [Stderr_read diag, Waited (returncode e)]"
    using l waited by (simp add: start_launched)
  then have "\<exists>pre post. events (start e) = pre @ Footer_read f # Terminate f # post"
    by blast
  with l waited show ?thesis
    by (cases e rule: try_body_cases)
       (simp_all add: start_launched terminate_calls_append terminate_calls_samples)
qed

theorem terminate_receives_footer_witness:
  "launched scenario_merge
   \<and> terminate_calls (events (start scenario_merge))
       = [[(text_of ''mode'', text_of ''cpu''), (text_of ''duration'', text_of ''7'')]]"
proof -
  have l: "launched scenario_merge"
    by (simp add: launched_def scenario_merge_def)
  have f: "fst (read_meta (overrun scenario_merge) (unread (try_body scenario_merge)))
      = Inr [(text_of ''mode'', text_of ''cpu''), (text_of ''duration'', text_of ''7'')]"
    by (simp add: scenario_merge_def run_eval)
  show ?thesis
    using l terminate_receives_footer [OF l] by (simp add: f)
qed

subsection \<open>An empty header\<close>

text \<open>
  C2 says that an empty header always ends in the error \<open>did not start properly\<close>.
  The \<open>finally\<close> clause raises for a non-zero exit status, and what it raises
  replaces the error of the body: with exit status 1 the caller gets \<open>(1) \<close>.
\<close>

theorem empty_header_counterexample:
  "raised (start scenario_no_output) = Some (AustinError (text_of ''(1) ''))
   \<and> raised (start scenario_no_output)
       \<noteq> Some (AustinError (text_of ''Austin did not start properly''))"
  by (simp add: scenario_no_output_def run_eval msg_eval)

text \<open>
  C2, as amended. Let the first read of the primary stream, after a launch, return
  a line (within the limit of the reader; the empty read at the end of the stream
  is one) that decodes as UTF-8 and is not metadata. Then the header is empty, the
  ready callback is not called, no sample is forwarded, the cleanup is entered right
  after the header has been read, and \<open>start\<close> fails. When nothing raises inside the
  cleanup itself (the footer is read, the termination callback returns, the
  diagnostic text decodes), the run does exactly this: footer parse, termination
  callback, diagnostic read, wait; and the error is \<open>Austin did not start properly\<close>
  for exit status 0 and the error of the exit status otherwise.
\<close>

theorem empty_header_run:
  assumes l: "launched e"
    and r: "readline (overrun e) (stdout e) = (Inr raw, rest)"
    and d: "decode raw = Some decoded"
    and n: "\<not> startswith (rstrip decoded) (text_of ''# '')"
  shows "read_meta (overrun e) (stdout e) = (Inr [], rest)
    \<and> Ready \<notin> set (events (start e))
    \<and> samples (events (start e)) = []
    \<and> take 3 (events (start e)) = [Set_running True, Header_read [], Set_running False]
    \<and> raised (start e) \<noteq> None
    \<and> (\<forall>footer rest' diag.
          read_meta (overrun e) rest = (Inr footer, rest')
          \<and> terminate_callback e footer = None \<and> read_stderr e = Inr diag \<longrightarrow>
          events (start e) =
            [Set_running True, Header_read [], Set_running False, Footer_read footer,
             Terminate footer, Stderr_read diag, Waited (returncode e)]
          \<and> raised (start e) =
              (if returncode e = 0
               then Some (AustinError (text_of ''Austin did not start properly''))
               else if returncode e = - 15 \<or> returncode e = 15
               then Some (AustinTerminated diag)
               else Some (AustinError (failed_message (returncode e) diag))))"
proof -
  from r d n have h: "read_meta (overrun e) (stdout e) = (Inr [], rest)"
    unfolding read_meta_def by (rule read_meta_loop_stop)
  then have b: "try_body e =
      \<lparr>events = [Header_read []], unread = rest, meta = meta_before e,
       raised = Some (AustinError (text_of ''Austin did not start properly''))\<rparr>"
    by (simp add: try_body_def read_header_def dict_update_def)
  have c: "Ready \<notin> set (events (start e)) \<and> samples (events (start e)) = []
    \<and> take 3 (events (start e)) = [Set_running True, Header_read [], Set_running False]
    \<and> raised (start e) \<noteq> None"
    using l b
    by (cases e rest "meta_before e" rule: cleanup_cases)
       (auto simp: start_launched split: option.splits)
  have w: "events (start e) =
            [Set_running True, Header_read [], Set_running False, Footer_read footer,
             Terminate footer, Stderr_read diag, Waited (returncode e)]
          \<and> raised (start e) =
              (if returncode e = 0
               then Some (AustinError (text_of ''Austin did not start properly''))
               else if returncode e = - 15 \<or> returncode e = 15
               then Some (AustinTerminated diag)
               else Some (AustinError (failed_message (returncode e) diag)))"
    if "read_meta (overrun e) rest = (Inr footer, rest')"
      "terminate_callback e footer = None" "read_stderr e = Inr diag"
    for footer rest' diag
    using l b that
    by (simp add: start_launched cleanup_def read_footer_def exit_error_def Let_def)
  from h c w show ?thesis
    by blast
qed

theorem empty_header_run_witness:
  "launched scenario_usage
   \<and> readline (overrun scenario_usage) (stdout scenario_usage) = (Inr ''Usage: austin\<newline>'', [])
   \<and> decode ''Usage: austin\<newline>'' = Some (text_of ''Usage: austin\<newline>'')
   \<and> \<not> startswith (rstrip (text_of ''Usage: austin\<newline>'')) (text_of ''# '')
   \<and> read_meta (overrun scenario_usage) [] = (Inr [], [])
   \<and> terminate_callback scenario_usage [] = None
   \<and> read_stderr scenario_usage = Inr (Some [])
   \<and> events (start scenario_usage) =
        [Set_running True, Header_read [], Set_running False, Footer_read [],
         Terminate [], Stderr_read (Some []), Waited 0]
   \<and> raised (start scenario_usage)
       = Some (AustinError (text_of ''Austin did not start properly''))"
proof -
  have l: "launched scenario_usage"
    by (simp add: launched_def scenario_usage_def)
  have r: "readline (overrun scenario_usage) (stdout scenario_usage)
      = (Inr ''Usage: austin\<newline>'', [])"
    by (simp add: scenario_usage_def readline_def limit_def)
  have d: "decode ''Usage: austin\<newline>'' = Some (text_of ''Usage: austin\<newline>'')"
    by (simp add: decode_def text_of_def)
  have n: "\<not> startswith (rstrip (text_of ''Usage: austin\<newline>'')) (text_of ''# '')"
    by (simp add: startswith_def rstrip_def isspace_def text_of_def)
  have f: "read_meta (overrun scenario_usage) [] = (Inr [], [])"
    by (simp add: scenario_usage_def run_eval)
  have t: "terminate_callback scenario_usage [] = None"
    by (simp add: scenario_usage_def)
  have s: "read_stderr scenario_usage = Inr (Some [])"
    by (simp add: scenario_usage_def read_stderr_def decode_def rstrip_def)
  have c: "returncode scenario_usage = 0"
    by (simp add: scenario_usage_def)
  from empty_header_run [OF l r d n] f t s
  have "events (start scenario_usage) =
            [Set_running True, Header_read [], Set_running False, Footer_read [],
             Terminate [], Stderr_read (Some []), Waited (returncode scenario_usage)]
          \<and> raised (start scenario_usage) =
              (if returncode scenario_usage = 0
               then Some (AustinError (text_of ''Austin did not start properly''))
               else if returncode scenario_usage = - 15 \<or> returncode scenario_usage = 15
               then Some (AustinTerminated (Some []))
               else Some (AustinError (failed_message (returncode scenario_usage) (Some []))))"
    by blast
  with c have "events (start scenario_usage) =
        [Set_running True, Header_read [], Set_running False, Footer_read [],
         Terminate [], Stderr_read (Some []), Waited 0]"
    "raised (start scenario_usage)
       = Some (AustinError (text_of ''Austin did not start properly''))"
    by simp_all
  with l r d n f t s show ?thesis
    by (intro conjI)
qed

subsection \<open>The exit status\<close>

text \<open>
  C3 says that a diagnostic read that timed out gives the empty string. It gives
  \<open>None\<close>: with exit status 15 the caller gets \<open>AustinTerminated(None)\<close>.
\<close>

theorem timeout_diagnostic_counterexample:
  "raised (start scenario_timeout) = Some (AustinTerminated None)
   \<and> raised (start scenario_timeout) \<noteq> Some (AustinTerminated (Some []))"
  by (simp add: scenario_timeout_def run_eval)

text \<open>
  C3, as amended. Once the exit status has been awaited: status 0 raises nothing, so
  the run ends as the body of its \<open>try\<close> statement did; -15 and 15 raise
  \<open>AustinTerminated\<close> with the diagnostic text; any other status raises
  \<open>AustinError\<close> with the message \<open>(status) text\<close>. The diagnostic text is the
  decoded content of the diagnostic stream without its trailing whitespace, and
  \<open>None\<close> when the read timed out.
\<close>

theorem exit_status_outcome:
  assumes l: "launched e" and d: "Stderr_read diag \<in> set (events (start e))"
  shows "raised (start e) =
           (if returncode e = 0 then raised (try_body e)
            else if returncode e = - 15 \<or> returncode e = 15 then Some (AustinTerminated diag)
            else Some (AustinError (failed_message (returncode e) diag)))
         \<and> (case stderr e of
               None \<Rightarrow> diag = None
             | Some bs \<Rightarrow> \<exists>decoded. decode bs = Some decoded \<and> diag = Some (rstrip decoded))"
proof -
  have c: "read_stderr e = Inr diag
      \<and> raised (cleanup e (unread (try_body e)) (meta (try_body e)))
          = exit_error (returncode e) diag"
    using l d
    by (cases e rule: try_body_cases;
        cases e "unread (try_body e)" "meta (try_body e)" rule: cleanup_cases)
       (auto simp: start_launched)
  then have "raised (start e) =
      (case exit_error (returncode e) diag of Some err \<Rightarrow> Some err | None \<Rightarrow> raised (try_body e))"
    using l by (simp add: start_launched)
  moreover from c have "case stderr e of
               None \<Rightarrow> diag = None
             | Some bs \<Rightarrow> \<exists>decoded. decode bs = Some decoded \<and> diag = Some (rstrip decoded)"
    by (auto simp: read_stderr_def split: option.splits)
  ultimately show ?thesis
    by (simp add: exit_error_def)
qed

theorem exit_status_outcome_witness:
  "launched scenario_signal
   \<and> Stderr_read (Some (text_of ''killed'')) \<in> set (events (start scenario_signal))
   \<and> raised (start scenario_signal) = Some (AustinTerminated (Some (text_of ''killed'')))"
proof -
  have l: "launched scenario_signal"
    by (simp add: launched_def scenario_signal_def)
  have d: "Stderr_read (Some (text_of ''killed'')) \<in> set (events (start scenario_signal))"
    by (simp add: scenario_signal_def run_eval)
  have r: "returncode scenario_signal = - 15"
    by (simp add: scenario_signal_def)
  show ?thesis
    using l d exit_status_outcome [OF l d] by (simp add: r)
qed

subsection \<open>Samples and the running flag\<close>




subsection \<open>Which error reaches the caller\<close>

text \<open>
  C5 says that the error of an empty header reaches the caller even when the exit
  status is not 0. It does not: the error raised by the \<open>finally\<close> clause for the
  exit status replaces it.
\<close>

theorem protocol_error_masked_counterexample:
  "raised (try_body scenario_garbage)
     = Some (AustinError (text_of ''Austin did not start properly''))
   \<and> raised (start scenario_garbage) = Some (AustinError (text_of ''(2) boom''))"
  by (simp add: scenario_garbage_def run_eval msg_eval)

text \<open>
  C5, as amended. A launch that fails raises at once and nothing else happens: the
  error \<open>Austin executable not found.\<close> when the executable is missing, the
  exception of the spawn itself otherwise, and the error of the missing stream when
  the child has no output or no diagnostic pipe. After a launch the cleanup is
  always entered, whatever the body did. The body raises the error of the header
  read when that read raises, \<open>Austin did not start properly\<close> when the header is
  empty, the exception of the ready callback, and otherwise what the sample loop
  raises, if anything. When nothing raises inside the cleanup itself, the run ends
  with footer parse, termination callback, diagnostic read and wait, and the caller
  gets the error of the exit status if that is not 0 (this replaces whatever the body
  raised), and what the body raised if it is 0.
\<close>

theorem errors_surfaced:
  "(case spawn e of
      File_not_found \<Rightarrow>
        events (start e) = []
        \<and> raised (start e) = Some (AustinError (text_of ''Austin executable not found.''))
    | Spawn_failed x \<Rightarrow> events (start e) = [] \<and> raised (start e) = Some (SpawnError x)
    | Spawned \<Rightarrow>
        if \<not> has_stdout e then
          events (start e) = []
          \<and> raised (start e)
              = Some (AustinError (text_of ''Standard output stream is unexpectedly missing''))
        else if \<not> has_stderr e then
          events (start e) = []
          \<and> raised (start e)
              = Some (AustinError (text_of ''Standard error stream is unexpectedly missing''))
        else
          (\<exists>evs. events (start e)
                   = Set_running True # events (try_body e) @ Set_running False # evs)
          \<and> (\<forall>footer rest diag.
                read_meta (overrun e) (unread (try_body e)) = (Inr footer, rest)
                \<and> terminate_callback e footer = None \<and> read_stderr e = Inr diag \<longrightarrow>
                events (start e) =
                  Set_running True # events (try_body e)
                    @ [Set_running False, Footer_read footer, Terminate footer,
                       Stderr_read diag, Waited (returncode e)]
                \<and> raised (start e) =
                    (if returncode e = 0 then raised (try_body e)
                     else if returncode e = - 15 \<or> returncode e = 15
                     then Some (AustinTerminated diag)
                     else Some (AustinError (failed_message (returncode e) diag))))
          \<and> (\<forall>err rest. read_meta (overrun e) (stdout e) = (Inl err, rest) \<longrightarrow>
                raised (try_body e) = Some err \<and> events (try_body e) = [])
          \<and> (\<forall>rest. read_meta (overrun e) (stdout e) = (Inr [], rest) \<longrightarrow>
                raised (try_body e)
                  = Some (AustinError (text_of ''Austin did not start properly''))
                \<and> events (try_body e) = [Header_read []])
          \<and> (\<forall>h rest x. read_meta (overrun e) (stdout e) = (Inr h, rest) \<and> h \<noteq> []
                  \<and> ready_callback e = Some x \<longrightarrow>
                raised (try_body e) = Some (HostError x)
                \<and> events (try_body e) = [Header_read h, Ready])
          \<and> (\<forall>h rest ds rest' r. read_meta (overrun e) (stdout e) = (Inr h, rest) \<and> h \<noteq> []
                  \<and> ready_callback e = None
                  \<and> sample_loop (overrun e) (stop_requested e) (sample_callback e) 0 rest
                      = (ds, rest', r) \<longrightarrow>
                raised (try_body e) = r
                \<and> events (try_body e) = [Header_read h, Ready] @ map Sample ds))"
proof (cases "launched e")
  case False
  then show ?thesis
    by (auto simp: start_def launched_def split: spawn_outcome.splits)
next
  case True
  let ?b = "try_body e"
  have a: "\<exists>evs. events (start e)
                   = Set_running True # events ?b @ Set_running False # evs"
    using True
    by (cases e "unread ?b" "meta ?b" rule: cleanup_cases) (simp_all add: start_launched)
  have b: "events (start e) =
                  Set_running True # events ?b
                    @ [Set_running False, Footer_read footer, Terminate footer,
                       Stderr_read diag, Waited (returncode e)]
                \<and> raised (start e) =
                    (if returncode e = 0 then raised ?b
                     else if returncode e = - 15 \<or> returncode e = 15
                     then Some (AustinTerminated diag)
                     else Some (AustinError (failed_message (returncode e) diag)))"
    if "read_meta (overrun e) (unread ?b) = (Inr footer, rest)"
      "terminate_callback e footer = None" "read_stderr e = Inr diag"
    for footer rest diag
    using True that
    by (simp add: start_launched cleanup_def read_footer_def exit_error_def Let_def)
  have c: "raised ?b = Some err \<and> events ?b = []"
    if "read_meta (overrun e) (stdout e) = (Inl err, rest)" for err rest
    using that by (simp add: try_body_def read_header_def)
  have d: "raised ?b = Some (AustinError (text_of ''Austin did not start properly''))
      \<and> events ?b = [Header_read []]"
    if "read_meta (overrun e) (stdout e) = (Inr [], rest)" for rest
    using that by (simp add: try_body_def read_header_def dict_update_def)
  have f: "raised ?b = Some (HostError x) \<and> events ?b = [Header_read h, Ready]"
    if "read_meta (overrun e) (stdout e) = (Inr h, rest)" "h \<noteq> []"
      "ready_callback e = Some x" for h rest x
    using that by (simp add: try_body_def read_header_def)
  have g: "raised ?b = r \<and> events ?b = [Header_read h, Ready] @ map Sample ds"
    if "read_meta (overrun e) (stdout e) = (Inr h, rest)" "h \<noteq> []"
      "ready_callback e = None"
      "sample_loop (overrun e) (stop_requested e) (sample_callback e) 0 rest = (ds, rest', r)"
    for h rest ds rest' r
    using that by (simp add: try_body_def read_header_def)
  from True have s: "spawn e = Spawned" "has_stdout e = True" "has_stderr e = True"
    by (simp_all add: launched_def)
  from a b c d f g show ?thesis
    by (simp only: s spawn_outcome.case if_False not_True_eq_False) blast
qed

theorem errors_surfaced_witness:
  "spawn scenario_sink_raises = Spawned
   \<and> has_stdout scenario_sink_raises \<and> has_stderr scenario_sink_raises
   \<and> read_meta (overrun scenario_sink_raises) (stdout scenario_sink_raises)
       = (Inr [(text_of ''mode'', text_of ''wall'')], ''sample\<newline>'')
   \<and> sample_loop (overrun scenario_sink_raises) (stop_requested scenario_sink_raises)
        (sample_callback scenario_sink_raises) 0 ''sample\<newline>''
       = ([''sample''], [], Some (HostError ''ValueError''))
   \<and> read_meta (overrun scenario_sink_raises) (unread (try_body scenario_sink_raises))
       = (Inr [], [])
   \<and> read_stderr scenario_sink_raises = Inr (Some [])
   \<and> raised (try_body scenario_sink_raises) = Some (HostError ''ValueError'')
   \<and> events (start scenario_sink_raises)
       = [Set_running True, Header_read [(text_of ''mode'', text_of ''wall'')], Ready,
          Sample ''sample'', Set_running False, Footer_read [], Terminate [],
          Stderr_read (Some []), Waited 0]
   \<and> raised (start scenario_sink_raises) = Some (HostError ''ValueError'')"
proof -
  have s: "spawn scenario_sink_raises = Spawned" "has_stdout scenario_sink_raises = True"
    "has_stderr scenario_sink_raises = True"
    by (simp_all add: scenario_sink_raises_def)
  have h: "read_meta (overrun scenario_sink_raises) (stdout scenario_sink_raises)
       = (Inr [(text_of ''mode'', text_of ''wall'')], ''sample\<newline>'')"
    by (simp add: scenario_sink_raises_def run_eval)
  have lp: "sample_loop (overrun scenario_sink_raises) (stop_requested scenario_sink_raises)
        (sample_callback scenario_sink_raises) 0 ''sample\<newline>''
       = ([''sample''], [], Some (HostError ''ValueError''))"
    by (simp add: scenario_sink_raises_def run_eval)
  have f: "read_meta (overrun scenario_sink_raises) (unread (try_body scenario_sink_raises))
       = (Inr [], [])"
    by (simp add: scenario_sink_raises_def run_eval)
  have t: "terminate_callback scenario_sink_raises [] = None"
    "ready_callback scenario_sink_raises = None"
    by (simp_all add: scenario_sink_raises_def)
  have d: "read_stderr scenario_sink_raises = Inr (Some [])"
    by (simp add: scenario_sink_raises_def read_stderr_def decode_def rstrip_def)
  have c: "returncode scenario_sink_raises = 0"
    by (simp add: scenario_sink_raises_def)
  have ne: "[(text_of ''mode'', text_of ''wall'')] \<noteq> []"
    by simp
  from errors_surfaced [of scenario_sink_raises]
  have *: "(\<forall>footer rest diag.
                read_meta (overrun scenario_sink_raises)
                    (unread (try_body scenario_sink_raises)) = (Inr footer, rest)
                \<and> terminate_callback scenario_sink_raises footer = None
                \<and> read_stderr scenario_sink_raises = Inr diag \<longrightarrow>
                events (start scenario_sink_raises) =
                  Set_running True # events (try_body scenario_sink_raises)
                    @ [Set_running False, Footer_read footer, Terminate footer,
                       Stderr_read diag, Waited (returncode scenario_sink_raises)]
                \<and> raised (start scenario_sink_raises) =
                    (if returncode scenario_sink_raises = 0
                     then raised (try_body scenario_sink_raises)
                     else if returncode scenario_sink_raises = - 15
                             \<or> returncode scenario_sink_raises = 15
                     then Some (AustinTerminated diag)
                     else Some (AustinError
                                  (failed_message (returncode scenario_sink_raises) diag))))"
    and **: "(\<forall>h rest ds rest' r.
                read_meta (overrun scenario_sink_raises) (stdout scenario_sink_raises)
                    = (Inr h, rest) \<and> h \<noteq> []
                  \<and> ready_callback scenario_sink_raises = None
                  \<and> sample_loop (overrun scenario_sink_raises)
                      (stop_requested scenario_sink_raises)
                      (sample_callback scenario_sink_raises) 0 rest
                      = (ds, rest', r) \<longrightarrow>
                raised (try_body scenario_sink_raises) = r
                \<and> events (try_body scenario_sink_raises)
                    = [Header_read h, Ready] @ map Sample ds)"
    by (simp_all only: s spawn_outcome.case if_False not_True_eq_False) blast+
  from ** h ne t(2) lp
  have b: "raised (try_body scenario_sink_raises) = Some (HostError ''ValueError'')"
    "events (try_body scenario_sink_raises)
       = [Header_read [(text_of ''mode'', text_of ''wall'')], Ready] @ map Sample [''sample'']"
    by blast+
  from * f t(1) d
  have "events (start scenario_sink_raises) =
          Set_running True # events (try_body scenario_sink_raises)
            @ [Set_running False, Footer_read [], Terminate [],
               Stderr_read (Some []), Waited (returncode scenario_sink_raises)]
        \<and> raised (start scenario_sink_raises) =
            (if returncode scenario_sink_raises = 0
             then raised (try_body scenario_sink_raises)
             else if returncode scenario_sink_raises = - 15
                     \<or> returncode scenario_sink_raises = 15
             then Some (AustinTerminated (Some []))
             else Some (AustinError
                          (failed_message (returncode scenario_sink_raises) (Some []))))"
    by blast
  with b c have r: "events (start scenario_sink_raises)
       = [Set_running True, Header_read [(text_of ''mode'', text_of ''wall'')], Ready,
          Sample ''sample'', Set_running False, Footer_read [], Terminate [],
          Stderr_read (Some []), Waited 0]"
    "raised (start scenario_sink_raises) = Some (HostError ''ValueError'')"
    by simp_all
  from s have s': "has_stdout scenario_sink_raises" "has_stderr scenario_sink_raises"
    by simp_all
  from s(1) s' h lp f d b(1) r show ?thesis
    by (intro conjI)
qed

subsection \<open>The metadata reader\<close>




subsection \<open>Merging header and footer\<close>

text \<open>
  C7. The header and the footer of a run are merged in this order into \<open>_meta\<close>: a
  key of the footer has the footer's value in the accumulated mapping, also when
  the header has it too; any other key of the header has the header's value; any
  key of neither is as it was before the run.
\<close>

theorem last_write_wins:
  assumes h: "Header_read h \<in> set (events (start e))"
    and f: "Footer_read f \<in> set (events (start e))"
  shows "map_of (meta (start e)) k =
           (case map_of f k of
              Some v \<Rightarrow> Some v
            | None \<Rightarrow> (case map_of h k of Some v \<Rightarrow> Some v | None \<Rightarrow> map_of (meta_before e) k))"
proof -
  from h have l: "launched e"
    using start_not_launched [of e] by (cases "launched e") simp_all
  obtain r1 where h1: "read_meta (overrun e) (stdout e) = (Inr h, r1)"
    and m1: "meta (try_body e) = dict_update (meta_before e) h"
    using h l by (cases e rule: try_body_cases; cases e "unread (try_body e)" "meta (try_body e)" rule: cleanup_cases)
      (auto simp: start_launched dict_update_def)
  obtain r2 where f2: "read_meta (overrun e) (unread (try_body e)) = (Inr f, r2)"
    and m2: "meta (start e) = dict_update (meta (try_body e)) f"
    using f l by (cases e rule: try_body_cases; cases e "unread (try_body e)" "meta (try_body e)" rule: cleanup_cases)
      (auto simp: start_launched)
  from h1 f2 have "distinct (map fst h)" "distinct (map fst f)"
    by (auto dest: read_meta_distinct)
  with m1 m2 show ?thesis
    by (simp add: lookup_dict_update split: option.splits)
qed

theorem last_write_wins_witness:
  "Header_read [(text_of ''mode'', text_of ''wall''), (text_of ''interval'', text_of ''100'')]
     \<in> set (events (start scenario_merge))
   \<and> Footer_read [(text_of ''mode'', text_of ''cpu''), (text_of ''duration'', text_of ''7'')]
     \<in> set (events (start scenario_merge))
   \<and> map_of (meta (start scenario_merge)) (text_of ''mode'') = Some (text_of ''cpu'')
   \<and> map_of (meta (start scenario_merge)) (text_of ''interval'') = Some (text_of ''100'')
   \<and> map_of (meta (start scenario_merge)) (text_of ''duration'') = Some (text_of ''7'')"
proof -
  have ev: "events (start scenario_merge) =
      [Set_running True,
       Header_read [(text_of ''mode'', text_of ''wall''), (text_of ''interval'', text_of ''100'')],
       Ready, Sample ''sample'', Set_running False,
       Footer_read [(text_of ''mode'', text_of ''cpu''), (text_of ''duration'', text_of ''7'')],
       Terminate [(text_of ''mode'', text_of ''cpu''), (text_of ''duration'', text_of ''7'')],
       Stderr_read (Some []), Waited 0]"
    by (simp add: scenario_merge_def run_eval)
  have h: "Header_read [(text_of ''mode'', text_of ''wall''), (text_of ''interval'', text_of ''100'')]
     \<in> set (events (start scenario_merge))"
    and f: "Footer_read [(text_of ''mode'', text_of ''cpu''), (text_of ''duration'', text_of ''7'')]
     \<in> set (events (start scenario_merge))"
    by (simp_all add: ev)
  show ?thesis
    using h f last_write_wins [OF h f, of "text_of ''mode''"]
      last_write_wins [OF h f, of "text_of ''interval''"]
      last_write_wins [OF h f, of "text_of ''duration''"]
    by (simp add: text_of_def)
qed

subsection \<open>The order of events\<close>

text \<open>
  C8 says that the exit status is awaited, and the termination callback called,
  before any outcome is reported; the comment that opens the \<open>finally\<close> clause
  (line 143) says that the clause waits for the child. When a footer line is not
  UTF-8, \<open>_read_footer\<close> raises inside the clause: a header has been read, a sample
  forwarded and the footer parse begun, and then the caller gets
  \<open>UnicodeDecodeError\<close>, while the termination callback has not been called and the
  child has not been waited for.
\<close>

theorem undecodable_footer_skips_wait:
  "events (start scenario_bad_footer)
     = [Set_running True, Header_read [(text_of ''mode'', text_of ''wall'')], Ready,
        Sample ''sample'', Set_running False]
   \<and> raised (start scenario_bad_footer) = Some UnicodeDecodeError
   \<and> terminate_calls (events (start scenario_bad_footer)) = []
   \<and> Waited (returncode scenario_bad_footer) \<notin> set (events (start scenario_bad_footer))"
  by (simp add: scenario_bad_footer_def run_eval)

subsection \<open>The sample loop\<close>

text \<open>
  C9 says that only the trailing newline of a sample is stripped and that the loop
  ends only on an empty read or a stop request. Line 136 calls \<open>rstrip()\<close>, which
  removes all trailing ASCII whitespace: the sample \<open>sample-A \<close> arrives without
  its trailing space, and a line of three spaces ends the loop without being
  forwarded.
\<close>

theorem sample_trailing_space_counterexample:
  "sample_loop (\<lambda>inp. 0) (\<lambda>k. False) (\<lambda>d. None) 0 ''sample-A \<newline>'' = ([''sample-A''], [], None)
   \<and> sample_loop (\<lambda>inp. 0) (\<lambda>k. False) (\<lambda>d. None) 0 ''   \<newline>sample-B\<newline>''
       = ([], ''sample-B\<newline>'', None)"
  by (simp add: run_eval)

text \<open>
  C9, as amended. Complete lines within the limit of the reader that are not blank
  are forwarded one by one, in the order of the stream, each without its trailing
  ASCII whitespace and otherwise byte for byte, as long as no stop is requested and
  the sink returns. The loop then ends when a stop is requested (nothing more is
  read), when the next read raises (which it does exactly when more than \<open>limit\<close>
  bytes come before the next newline, with \<open>ValueError\<close>), when the next read is
  empty once stripped (a blank line or the end of the stream), or when the sink
  raises on the next sample; otherwise it goes on.
\<close>

theorem sample_loop_forwards:
  assumes "\<forall>l\<in>set ls. is_line l \<and> rstrip_bytes l \<noteq> [] \<and> sink (rstrip_bytes l) = None"
    and "\<forall>i<length ls. \<not> stop (k + i)"
  shows "sample_loop ov stop sink k (concat ls @ inp) =
           (if stop (k + length ls) then (map rstrip_bytes ls, inp, None)
            else (case readline ov inp of
                    (Inl err, rest) \<Rightarrow> (map rstrip_bytes ls, rest, Some err)
                  | (Inr raw, rest) \<Rightarrow>
                      if rstrip_bytes raw = [] then (map rstrip_bytes ls, rest, None)
                      else (case sink (rstrip_bytes raw) of
                              Some x \<Rightarrow>
                                (map rstrip_bytes ls @ [rstrip_bytes raw], rest,
                                 Some (HostError x))
                            | None \<Rightarrow>
                                (case sample_loop ov stop sink (Suc (k + length ls)) rest of
                                   (ds, rest', r) \<Rightarrow>
                                     (map rstrip_bytes ls @ rstrip_bytes raw # ds, rest', r)))))
         \<and> (\<forall>l\<in>set ls. \<exists>ws. l = rstrip_bytes l @ ws \<and> (\<forall>b\<in>set ws. isspace_byte b)
                \<and> \<not> isspace_byte (last (rstrip_bytes l)))
         \<and> (\<forall>err rest. readline ov inp = (Inl err, rest) \<longrightarrow>
               err = ValueError
               \<and> limit < length (takeWhile (\<lambda>b. b \<noteq> CHR ''\<newline>'') inp))
         \<and> (limit < length (takeWhile (\<lambda>b. b \<noteq> CHR ''\<newline>'') inp) \<longrightarrow>
               fst (readline ov inp) = Inl ValueError)"
proof -
  have "sample_loop ov stop sink k (concat ls @ inp) =
         (case sample_loop ov stop sink (k + length ls) inp of
            (ds, rest, r) \<Rightarrow> (map rstrip_bytes ls @ ds, rest, r))"
    using assms by (rule sample_loop_lines)
  also have "\<dots> =
           (if stop (k + length ls) then (map rstrip_bytes ls, inp, None)
            else (case readline ov inp of
                    (Inl err, rest) \<Rightarrow> (map rstrip_bytes ls, rest, Some err)
                  | (Inr raw, rest) \<Rightarrow>
                      if rstrip_bytes raw = [] then (map rstrip_bytes ls, rest, None)
                      else (case sink (rstrip_bytes raw) of
                              Some x \<Rightarrow>
                                (map rstrip_bytes ls @ [rstrip_bytes raw], rest,
                                 Some (HostError x))
                            | None \<Rightarrow>
                                (case sample_loop ov stop sink (Suc (k + length ls)) rest of
                                   (ds, rest', r) \<Rightarrow>
                                     (map rstrip_bytes ls @ rstrip_bytes raw # ds, rest', r)))))"
    by (subst sample_loop.simps)
       (simp add: Let_def split: prod.splits sum.splits option.splits)
  finally have a: "sample_loop ov stop sink k (concat ls @ inp) = \<dots>" .
  have b: "\<forall>l\<in>set ls. \<exists>ws. l = rstrip_bytes l @ ws \<and> (\<forall>b\<in>set ws. isspace_byte b)
                \<and> \<not> isspace_byte (last (rstrip_bytes l))"
    using assms(1) rstrip_bytes_suffix rstrip_bytes_last by blast
  have c: "\<forall>err rest. readline ov inp = (Inl err, rest) \<longrightarrow>
               err = ValueError
               \<and> limit < length (takeWhile (\<lambda>b. b \<noteq> CHR ''\<newline>'') inp)"
    using readline_error [of ov inp] readline_raises [of ov inp] by blast
  have d: "limit < length (takeWhile (\<lambda>b. b \<noteq> CHR ''\<newline>'') inp) \<longrightarrow>
               fst (readline ov inp) = Inl ValueError"
    using readline_raises [of ov inp] by auto
  from a b c d show ?thesis
    by (intro conjI)
qed

theorem sample_loop_forwards_witness:
  "is_line ''sample-A\<newline>'' \<and> rstrip_bytes ''sample-A\<newline>'' = ''sample-A''
   \<and> is_line ''sample B  \<newline>'' \<and> rstrip_bytes ''sample B  \<newline>'' = ''sample B''
   \<and> sample_loop (\<lambda>inp. 0) (\<lambda>k. False) (\<lambda>d. None) 0
        (concat [''sample-A\<newline>'', ''sample B  \<newline>''] @ ''\<newline># duration: 7\<newline>'')
       = ([''sample-A'', ''sample B''], ''# duration: 7\<newline>'', None)
   \<and> sample_loop (\<lambda>inp. 0) (\<lambda>k. 2 \<le> k) (\<lambda>d. None) 0
        (concat [''sample-A\<newline>'', ''sample B  \<newline>''] @ ''sample-C\<newline>'')
       = ([''sample-A'', ''sample B''], ''sample-C\<newline>'', None)"
proof -
  have l: "is_line ''sample-A\<newline>''" "is_line ''sample B  \<newline>''"
    by (simp_all add: is_line_def limit_def)
  have s: "rstrip_bytes ''sample-A\<newline>'' = ''sample-A''"
    "rstrip_bytes ''sample B  \<newline>'' = ''sample B''"
    by (simp_all add: rstrip_bytes_def isspace_byte_def)
  have h1: "\<forall>l\<in>set [''sample-A\<newline>'', ''sample B  \<newline>''].
      is_line l \<and> rstrip_bytes l \<noteq> [] \<and> (\<lambda>d. None :: string option) (rstrip_bytes l) = None"
    by (simp add: l s)
  have h2: "\<forall>i<length [''sample-A\<newline>'', ''sample B  \<newline>'']. \<not> (\<lambda>k. False) (0 + i)"
    by simp
  have h3: "\<forall>i<length [''sample-A\<newline>'', ''sample B  \<newline>'']. \<not> (\<lambda>k. 2 \<le> k) (0 + i)"
    by simp
  have r: "readline (\<lambda>inp. 0) ''\<newline># duration: 7\<newline>'' = (Inr ''\<newline>'', ''# duration: 7\<newline>'')"
    by (simp add: readline_def limit_def)
  from sample_loop_forwards [where ls = "[''sample-A\<newline>'', ''sample B  \<newline>'']"
        and sink = "\<lambda>d. None" and stop = "\<lambda>k. False" and k = 0 and ov = "\<lambda>inp. 0"
        and inp = "''\<newline># duration: 7\<newline>''", OF h1 h2]
  have "sample_loop (\<lambda>inp. 0) (\<lambda>k. False) (\<lambda>d. None) 0
        (concat [''sample-A\<newline>'', ''sample B  \<newline>''] @ ''\<newline># duration: 7\<newline>'')
       = (if (\<lambda>k. False) (0 + length [''sample-A\<newline>'', ''sample B  \<newline>''])
          then (map rstrip_bytes [''sample-A\<newline>'', ''sample B  \<newline>''], ''\<newline># duration: 7\<newline>'', None)
          else (case readline (\<lambda>inp. 0) ''\<newline># duration: 7\<newline>'' of
                  (Inl err, rest) \<Rightarrow>
                    (map rstrip_bytes [''sample-A\<newline>'', ''sample B  \<newline>''], rest, Some err)
                | (Inr raw, rest) \<Rightarrow>
                    if rstrip_bytes raw = []
                    then (map rstrip_bytes [''sample-A\<newline>'', ''sample B  \<newline>''], rest, None)
                    else (case (\<lambda>d. None :: string option) (rstrip_bytes raw) of
                            Some x \<Rightarrow>
                              (map rstrip_bytes [''sample-A\<newline>'', ''sample B  \<newline>'']
                                 @ [rstrip_bytes raw], rest, Some (HostError x))
                          | None \<Rightarrow>
                              (case sample_loop (\<lambda>inp. 0) (\<lambda>k. False) (\<lambda>d. None)
                                      (Suc (0 + length [''sample-A\<newline>'', ''sample B  \<newline>''])) rest of
                                 (ds, rest', r) \<Rightarrow>
                                   (map rstrip_bytes [''sample-A\<newline>'', ''sample B  \<newline>'']
                                      @ rstrip_bytes raw # ds, rest', r)))))"
    by (rule conjunct1)
  then have a: "sample_loop (\<lambda>inp. 0) (\<lambda>k. False) (\<lambda>d. None) 0
        (concat [''sample-A\<newline>'', ''sample B  \<newline>''] @ ''\<newline># duration: 7\<newline>'')
       = ([''sample-A'', ''sample B''], ''# duration: 7\<newline>'', None)"
    by (simp add: r s rstrip_bytes_def isspace_byte_def)
  from sample_loop_forwards [where ls = "[''sample-A\<newline>'', ''sample B  \<newline>'']"
        and sink = "\<lambda>d. None" and stop = "\<lambda>k. 2 \<le> k" and k = 0 and ov = "\<lambda>inp. 0"
        and inp = "''sample-C\<newline>''", OF h1 h3]
  have b: "sample_loop (\<lambda>inp. 0) (\<lambda>k. 2 \<le> k) (\<lambda>d. None) 0
        (concat [''sample-A\<newline>'', ''sample B  \<newline>''] @ ''sample-C\<newline>'')
       = ([''sample-A'', ''sample B''], ''sample-C\<newline>'', None)"
    by (simp add: s)
  from l s a b show ?thesis
    by (intro conjI)
qed

subsection \<open>A marker followed by whitespace only\<close>



end
